theory Spec2Isabelle
  imports Main
begin

section \<open>The document tree and the selection library\<close>

text \<open>
  \<^verbatim>\<open>unmarshal.go\<close> decodes a parsed HTML tree into a Go struct by reflection. It reads
  the tree only through a \<^verbatim>\<open>*goquery.Selection\<close>: \<^verbatim>\<open>Find\<close>, \<^verbatim>\<open>First\<close>, \<^verbatim>\<open>Text\<close>,
  \<^verbatim>\<open>Attr\<close>, \<^verbatim>\<open>Each\<close> and the field \<^verbatim>\<open>Nodes\<close>. A node is an \<^verbatim>\<open>html.Node\<close>: its type,
  its data (the text of a text node, the tag of an element), its attributes as key and
  value pairs, and its children in document order.
\<close>

datatype NodeType = ErrorNode | TextNode | DocumentNode | ElementNode | CommentNode | DoctypeNode

datatype Node = Node (NodeTy: NodeType) (Data: string) (NodeAttr: "(string \<times> string) list")
  (Children: "Node list")

text \<open>
  A selection holds the slice \<^verbatim>\<open>Nodes\<close>. The decoder tests \<^verbatim>\<open>Nodes == nil\<close>, so the nil
  slice (\<open>None\<close>) is kept apart from an empty slice that is not nil (\<open>Some []\<close>).
\<close>

datatype Selection = Selection (Nodes: "Node list option")

definition nodes :: "Selection \<Rightarrow> Node list" where
  "nodes s = (case Nodes s of None \<Rightarrow> [] | Some ns \<Rightarrow> ns)"

text \<open>
  Modelled from the spec: section 6, \<^verbatim>\<open>FirstOf\<close>. goquery's \<^verbatim>\<open>First\<close> is \<^verbatim>\<open>Eq(0)\<close>: the
  empty selection (nil \<^verbatim>\<open>Nodes\<close>) when there is no node, else the selection of the first.
\<close>

definition First :: "Selection \<Rightarrow> Selection" where
  "First s = (case nodes s of [] \<Rightarrow> Selection None | n # _ \<Rightarrow> Selection (Some [n]))"

text \<open>
  Modelled from the spec: section 6, \<^verbatim>\<open>Text\<close>. goquery's \<^verbatim>\<open>Text\<close> walks every node of
  the selection and its descendants in document order and concatenates the data of the
  text nodes.
\<close>

fun nodeText :: "Node \<Rightarrow> string" where
  "nodeText (Node ty d as cs) = (if ty = TextNode then d else []) @ concat (map nodeText cs)"

definition Text :: "Selection \<Rightarrow> string" where
  "Text s = concat (map nodeText (nodes s))"

text \<open>
  Modelled from the spec: section 6, \<^verbatim>\<open>Attr\<close>. The value of the first attribute of the
  first node whose key is the name, and whether there is one.
\<close>

definition getAttributeValue :: "string \<Rightarrow> Node \<Rightarrow> string \<times> bool" where
  "getAttributeValue attrName n =
     (case map_of (NodeAttr n) attrName of None \<Rightarrow> ([], False) | Some v \<Rightarrow> (v, True))"

definition Attr :: "Selection \<Rightarrow> string \<Rightarrow> string \<times> bool" where
  "Attr s attrName = (case nodes s of [] \<Rightarrow> ([], False) | n # _ \<Rightarrow> getAttributeValue attrName n)"

text \<open>
  goquery's \<^verbatim>\<open>Each\<close> calls the function on the single-node selection of every node, in
  order. The callback of \<^verbatim>\<open>unmarshalSlice\<close> ignores the index and updates the field, so
  the callback here maps a state to a state.
\<close>

definition Each :: "Selection \<Rightarrow> (Selection \<Rightarrow> 'st \<Rightarrow> 'st) \<Rightarrow> 'st \<Rightarrow> 'st" where
  "Each s f st = fold (\<lambda>n. f (Selection (Some [n]))) (nodes s) st"

section \<open>strings.TrimSpace\<close>

text \<open>
  A Go string is a sequence of bytes; \<^verbatim>\<open>strings.TrimSpace\<close> removes the leading and the
  trailing runes for which \<^verbatim>\<open>unicode.IsSpace\<close> holds, decoding UTF-8. \<open>spaceRune\<close> holds
  of the UTF-8 encodings of these runes: tab, line feed, vertical tab, form feed,
  carriage return, space, U+0085, U+00A0, U+1680, U+2000 to U+200A, U+2028, U+2029,
  U+202F, U+205F and U+3000.
\<close>

fun spaceRune :: "nat list \<Rightarrow> bool" where
  "spaceRune [b] = (b = 9 \<or> b = 10 \<or> b = 11 \<or> b = 12 \<or> b = 13 \<or> b = 32)"
| "spaceRune [b1, b2] = (b1 = 194 \<and> (b2 = 133 \<or> b2 = 160))"
| "spaceRune [b1, b2, b3] =
     (b1 = 225 \<and> b2 = 154 \<and> b3 = 128
      \<or> b1 = 226 \<and> b2 = 128 \<and> (128 \<le> b3 \<and> b3 \<le> 138 \<or> b3 = 168 \<or> b3 = 169 \<or> b3 = 175)
      \<or> b1 = 226 \<and> b2 = 129 \<and> b3 = 159
      \<or> b1 = 227 \<and> b2 = 128 \<and> b3 = 128)"
| "spaceRune _ = False"

definition bytes :: "string \<Rightarrow> nat list" where
  "bytes s = map of_char s"

text \<open>The width in bytes of the white-space rune a string starts with; 0 when it starts with none.\<close>

definition leadSpace :: "string \<Rightarrow> nat" where
  "leadSpace s =
     (if spaceRune (bytes (take 1 s)) then 1
      else if spaceRune (bytes (take 2 s)) then 2
      else if spaceRune (bytes (take 3 s)) then 3
      else 0)"

text \<open>The same for the rune a string ends with.\<close>

definition trailSpace :: "string \<Rightarrow> nat" where
  "trailSpace s =
     (if spaceRune (bytes (drop (length s - 1) s)) then 1
      else if spaceRune (bytes (drop (length s - 2) s)) then 2
      else if spaceRune (bytes (drop (length s - 3) s)) then 3
      else 0)"

function trimLeft :: "string \<Rightarrow> string" where
  "trimLeft s = (if leadSpace s = 0 \<or> s = [] then s else trimLeft (drop (leadSpace s) s))"
  by pat_completeness auto
termination
  by (relation "measure length") (auto simp: leadSpace_def split: if_splits)

declare trimLeft.simps [simp del]

function trimRight :: "string \<Rightarrow> string" where
  "trimRight s =
     (if trailSpace s = 0 \<or> s = [] then s else trimRight (take (length s - trailSpace s) s))"
  by pat_completeness auto
termination
  by (relation "measure length") (auto simp: trailSpace_def split: if_splits)

declare trimRight.simps [simp del]

definition TrimSpace :: "string \<Rightarrow> string" where
  "TrimSpace s = trimRight (trimLeft s)"

section \<open>Single-value extraction\<close>

text \<open>\<^verbatim>\<open>getDOMValue\<close> (lines 135 to 141).\<close>

definition getDOMValue :: "Selection \<Rightarrow> string \<Rightarrow> string" where
  "getDOMValue s attr = (if attr = [] then TrimSpace (Text (First s)) else fst (Attr s attr))"

section \<open>Go types and values, as reflection shows them\<close>

text \<open>
  The decoder switches on four kinds; \<open>OtherKind\<close> stands for every other kind of
  \<^verbatim>\<open>reflect\<close> (Bool, the integer, float and complex kinds, Array, Chan, Func, Interface,
  Map, UnsafePointer), which the code does not tell apart.
\<close>

datatype Kind = Slice | String | Struct | Ptr | OtherKind

text \<open>
  A struct field as \<^verbatim>\<open>reflect.StructField\<close> describes it: \<open>PkgPath\<close> is empty exactly
  for an exported field, and the tag is read with \<^verbatim>\<open>Tag.Get\<close>, here a lookup in the
  key and value pairs of the tag.
\<close>

datatype StructField = StructField (Name: string) (PkgPath: string) (Tag: "(string \<times> string) list")

definition Get :: "(string \<times> string) list \<Rightarrow> string \<Rightarrow> string" where
  "Get tag key = (case map_of tag key of None \<Rightarrow> [] | Some v \<Rightarrow> v)"

text \<open>
  Go's struct types may be recursive through pointers and slices (the example of the
  doc comment, \<^verbatim>\<open>Nested\<close>, has a field of type \<^verbatim>\<open>*Nested\<close>), so the element type of a
  pointer or slice type is a name, looked up in a table of types \<open>T\<close> that every
  function below takes. \<open>TString nm\<close> is a type of kind String called \<open>nm\<close>: the
  predeclared type is \<open>TString ''string''\<close>, any other name is a defined type
  (\<^verbatim>\<open>type Label string\<close>). \<open>TOther nm\<close> is a type of any other kind, with the name
  \<^verbatim>\<open>Type.String()\<close> prints.
\<close>

type_synonym tname = string

datatype Type = TOther string | TString string | TSlice tname | TPtr tname
  | TStruct "(StructField \<times> Type) list"

fun KindOf :: "Type \<Rightarrow> Kind" where
  "KindOf (TOther nm) = OtherKind"
| "KindOf (TString nm) = String"
| "KindOf (TSlice e) = Slice"
| "KindOf (TPtr e) = Ptr"
| "KindOf (TStruct fs) = Struct"

text \<open>
  A value carries its type, as a \<^verbatim>\<open>reflect.Value\<close> does. A slice is nil (\<open>None\<close>) or has
  elements; a pointer is nil or points to a value that it owns (the decoder only stores
  pointers to instances it has just allocated). The contents of a value of another kind
  are a number the decoder never reads.
\<close>

datatype Value = VOther string nat | VString string string | VSlice tname "Value list option"
  | VPtr tname "Value option" | VStruct "(StructField \<times> Value) list"

fun TypeOf :: "Value \<Rightarrow> Type" where
  "TypeOf (VOther nm x) = TOther nm"
| "TypeOf (VString nm x) = TString nm"
| "TypeOf (VSlice e xs) = TSlice e"
| "TypeOf (VPtr e p) = TPtr e"
| "TypeOf (VStruct fs) = TStruct (map (\<lambda>(f, v). (f, TypeOf v)) fs)"

text \<open>The zero value of a type, which \<^verbatim>\<open>reflect.New\<close> stores in the variable it allocates.\<close>

fun Zero :: "Type \<Rightarrow> Value" where
  "Zero (TOther nm) = VOther nm 0"
| "Zero (TString nm) = VString nm []"
| "Zero (TSlice e) = VSlice e None"
| "Zero (TPtr e) = VPtr e None"
| "Zero (TStruct fs) = VStruct (map (\<lambda>(f, t). (f, Zero t)) fs)"

text \<open>
  The argument \<^verbatim>\<open>v interface{}\<close> of \<^verbatim>\<open>UnmarshalHTML\<close>: the nil interface, a value that is
  not a pointer, or a pointer, nil or to a variable with its current value.
\<close>

datatype Interface = NilInterface | NonPointer | Pointer "Value option"

definition New :: "Type \<Rightarrow> Interface" where
  "New t = Pointer (Some (Zero t))"

text \<open>\<^verbatim>\<open>Value.String()\<close> of a value whose kind is not String, from the name of its type.\<close>

definition ValueString :: "string \<Rightarrow> string" where
  "ValueString nm = ''<'' @ nm @ '' Value>''"

text \<open>A field can be set when it is exported (the struct itself is addressable: it is
  reached through a pointer).\<close>

definition CanSet :: "StructField \<Rightarrow> bool" where
  "CanSet f = (PkgPath f = [])"

section \<open>The decoder\<close>

text \<open>
  An error is its message (\<^verbatim>\<open>errors.New\<close>); \<open>None\<close> is the nil error. A call returns its
  error together with the state of the variable it may have written, or panics.

  The selector engine is not part of the decoder: every function takes goquery's
  \<^verbatim>\<open>Find\<close> as the parameter \<open>Find\<close>, any function from a selection and a selector to a
  selection.
\<close>

type_synonym error = string

datatype 'a outcome = Returns "error option" 'a | Panics

text \<open>
  \<^verbatim>\<open>unmarshalSlice\<close> (lines 118 to 133). The callback of \<^verbatim>\<open>Each\<close> appends the extracted
  string; \<^verbatim>\<open>reflect.Append\<close> panics when a \<^verbatim>\<open>string\<close> is not assignable to the element
  type, that is when the element type is a defined string type.
\<close>

definition appendValue :: "(tname \<Rightarrow> Type) \<Rightarrow> string \<Rightarrow> Selection \<Rightarrow> Value outcome \<Rightarrow> Value outcome" where
  "appendValue T htmlAttr s st =
     (case st of
        Returns e (VSlice el (Some xs)) \<Rightarrow>
          (let val = getDOMValue s htmlAttr
           in if T el = TString ''string'' then Returns e (VSlice el (Some (xs @ [VString ''string'' val])))
              else Panics)
      | _ \<Rightarrow> Panics)"

definition unmarshalSlice ::
  "(tname \<Rightarrow> Type) \<Rightarrow> (Selection \<Rightarrow> string \<Rightarrow> Selection) \<Rightarrow> Selection \<Rightarrow> string \<Rightarrow> string \<Rightarrow> Value
   \<Rightarrow> Value outcome" where
  "unmarshalSlice T Find s selector htmlAttr attrV =
     (case attrV of
        VSlice el xs \<Rightarrow>
          (let attrV1 = (if xs = None then VSlice el (Some []) else attrV)
           in case KindOf (T el) of
                String \<Rightarrow> Each (Find s selector) (appendValue T htmlAttr) (Returns None attrV1)
              | _ \<Rightarrow> Returns (Some ''Invalid slice type'') attrV1)
      | _ \<Rightarrow> Panics)"

text \<open>
  \<^verbatim>\<open>unmarshalStruct\<close> (lines 80 to 95) and \<^verbatim>\<open>unmarshalPtr\<close> (97 to 116) call
  \<^verbatim>\<open>UnmarshalHTML\<close> again, and on a recursive struct type the recursion need not end. So
  \<^verbatim>\<open>UnmarshalHTML\<close> takes the depth of calls it may still make, and the functions it calls
  take as \<open>decode\<close> the \<^verbatim>\<open>UnmarshalHTML\<close> of the remaining depth. \<open>None\<close> is a decode that
  did not return within the depth.
\<close>

definition unmarshalStruct ::
  "(Selection \<Rightarrow> string \<Rightarrow> Selection) \<Rightarrow> (Interface \<Rightarrow> Selection \<Rightarrow> Interface outcome option)
   \<Rightarrow> Selection \<Rightarrow> string \<Rightarrow> Value \<Rightarrow> Value outcome option" where
  "unmarshalStruct Find decode s selector attrV =
     (let newS = (if selector \<noteq> [] then Find s selector else s)
      in if Nodes newS = None then Some (Returns None attrV)
         else
           (case decode (New (TypeOf attrV)) newS of
              None \<Rightarrow> None
            | Some Panics \<Rightarrow> Some Panics
            | Some (Returns (Some err) v) \<Rightarrow> Some (Returns (Some err) attrV)
            | Some (Returns None v) \<Rightarrow>
                (case v of Pointer (Some x) \<Rightarrow> Some (Returns None x) | _ \<Rightarrow> Some Panics)))"

text \<open>\<^verbatim>\<open>unmarshalAttr\<close> calls \<^verbatim>\<open>unmarshalPtr\<close> on values of kind Ptr only (line 70).\<close>

definition unmarshalPtr ::
  "(tname \<Rightarrow> Type) \<Rightarrow> (Selection \<Rightarrow> string \<Rightarrow> Selection)
   \<Rightarrow> (Interface \<Rightarrow> Selection \<Rightarrow> Interface outcome option)
   \<Rightarrow> Selection \<Rightarrow> string \<Rightarrow> Value \<Rightarrow> Value outcome option" where
  "unmarshalPtr T Find decode s selector attrV =
     (let newS = (if selector \<noteq> [] then Find s selector else s)
      in if Nodes newS = None then Some (Returns None attrV)
         else
           (case attrV of
              VPtr el p \<Rightarrow>
                (let e = T el
                 in if KindOf e \<noteq> Struct then Some (Returns (Some ''Invalid slice type'') attrV)
                    else
                      (case decode (New e) newS of
                         None \<Rightarrow> None
                       | Some Panics \<Rightarrow> Some Panics
                       | Some (Returns (Some err) v) \<Rightarrow> Some (Returns (Some err) attrV)
                       | Some (Returns None v) \<Rightarrow>
                           (case v of Pointer p' \<Rightarrow> Some (Returns None (VPtr el p'))
                                    | _ \<Rightarrow> Some Panics)))
            | _ \<Rightarrow> Some Panics))"

text \<open>
  \<^verbatim>\<open>unmarshalAttr\<close> (lines 54 to 78). In the String case \<^verbatim>\<open>Value.Set\<close> panics when a
  \<^verbatim>\<open>string\<close> is not assignable to the field's type (a defined string type).
\<close>

definition unmarshalAttr ::
  "(tname \<Rightarrow> Type) \<Rightarrow> (Selection \<Rightarrow> string \<Rightarrow> Selection)
   \<Rightarrow> (Interface \<Rightarrow> Selection \<Rightarrow> Interface outcome option)
   \<Rightarrow> Selection \<Rightarrow> Value \<Rightarrow> StructField \<Rightarrow> Value outcome option" where
  "unmarshalAttr T Find decode s attrV attrT =
     (let selector = Get (Tag attrT) ''selector'';
          htmlAttr = Get (Tag attrT) ''attr''
      in case attrV of
           VSlice el xs \<Rightarrow> Some (unmarshalSlice T Find s selector htmlAttr attrV)
         | VString nm x \<Rightarrow>
             (let val = getDOMValue (Find s selector) htmlAttr
              in if nm = ''string'' then Some (Returns None (VString nm val)) else Some Panics)
         | VStruct fs \<Rightarrow> unmarshalStruct Find decode s selector attrV
         | VPtr el p \<Rightarrow> unmarshalPtr T Find decode s selector attrV
         | VOther nm x \<Rightarrow> Some (Returns (Some (''Invalid type: '' @ ValueString nm)) attrV))"

text \<open>
  The loop of \<^verbatim>\<open>UnmarshalHTML\<close> over the fields (lines 42 to 50), in declaration order: a
  field that cannot be set is skipped, the first error ends the loop.
\<close>

fun unmarshalFields ::
  "(tname \<Rightarrow> Type) \<Rightarrow> (Selection \<Rightarrow> string \<Rightarrow> Selection)
   \<Rightarrow> (Interface \<Rightarrow> Selection \<Rightarrow> Interface outcome option)
   \<Rightarrow> Selection \<Rightarrow> (StructField \<times> Value) list \<Rightarrow> (StructField \<times> Value) list outcome option" where
  "unmarshalFields T Find decode s [] = Some (Returns None [])"
| "unmarshalFields T Find decode s ((attrT, attrV) # rest) =
     (if \<not> CanSet attrT then
        (case unmarshalFields T Find decode s rest of
           None \<Rightarrow> None
         | Some Panics \<Rightarrow> Some Panics
         | Some (Returns err rest') \<Rightarrow> Some (Returns err ((attrT, attrV) # rest')))
      else
        (case unmarshalAttr T Find decode s attrV attrT of
           None \<Rightarrow> None
         | Some Panics \<Rightarrow> Some Panics
         | Some (Returns (Some err) attrV') \<Rightarrow> Some (Returns (Some err) ((attrT, attrV') # rest))
         | Some (Returns None attrV') \<Rightarrow>
             (case unmarshalFields T Find decode s rest of
                None \<Rightarrow> None
              | Some Panics \<Rightarrow> Some Panics
              | Some (Returns err rest') \<Rightarrow> Some (Returns err ((attrT, attrV') # rest')))))"

text \<open>
  \<^verbatim>\<open>UnmarshalHTML\<close> (lines 32 to 52). \<^verbatim>\<open>NumField\<close> panics on a value that is not a struct.
\<close>

fun UnmarshalHTML ::
  "(tname \<Rightarrow> Type) \<Rightarrow> (Selection \<Rightarrow> string \<Rightarrow> Selection) \<Rightarrow> nat \<Rightarrow> Interface \<Rightarrow> Selection
   \<Rightarrow> Interface outcome option" where
  "UnmarshalHTML T Find 0 v s = None"
| "UnmarshalHTML T Find (Suc n) v s =
     (case v of
        Pointer (Some sv) \<Rightarrow>
          (case sv of
             VStruct fs \<Rightarrow>
               (case unmarshalFields T Find (UnmarshalHTML T Find n) s fs of
                  None \<Rightarrow> None
                | Some Panics \<Rightarrow> Some Panics
                | Some (Returns err fs') \<Rightarrow> Some (Returns err (Pointer (Some (VStruct fs')))))
           | _ \<Rightarrow> Some Panics)
      | _ \<Rightarrow> Some (Returns (Some ''Invalid type or nil-pointer'') v))"

section \<open>Notions of the statements\<close>

text \<open>
  The scope a nested field is decoded in (lines 81 to 84 and 98 to 101): the current
  scope itself when the selector is empty.
\<close>

definition searchScope :: "(Selection \<Rightarrow> string \<Rightarrow> Selection) \<Rightarrow> Selection \<Rightarrow> string \<Rightarrow> Selection" where
  "searchScope Find s selector = (if selector \<noteq> [] then Find s selector else s)"

text \<open>
  A field finds nothing in the scope: it cannot be set, or it is a \<^verbatim>\<open>string\<close> or a
  slice of strings whose selector finds no node, or a nested record, by value or by
  reference, whose search scope has nil \<^verbatim>\<open>Nodes\<close> (the test of lines 85 and 102; goquery's
  \<^verbatim>\<open>Find\<close> returns nil \<^verbatim>\<open>Nodes\<close> when nothing matches). \<open>absentResult\<close> is the field after
  the decode then.
\<close>

definition absentValue :: "Value \<Rightarrow> Value" where
  "absentValue v =
     (case v of VString nm x \<Rightarrow> VString nm [] | VSlice el None \<Rightarrow> VSlice el (Some []) | _ \<Rightarrow> v)"

definition absentField ::
  "(tname \<Rightarrow> Type) \<Rightarrow> (Selection \<Rightarrow> string \<Rightarrow> Selection) \<Rightarrow> Selection \<Rightarrow> StructField \<times> Value \<Rightarrow> bool" where
  "absentField T Find s fv =
     (case fv of (f, v) \<Rightarrow>
        \<not> CanSet f \<or>
        (let selector = Get (Tag f) ''selector''
         in case v of
              VString nm x \<Rightarrow> nm = ''string'' \<and> nodes (Find s selector) = []
            | VSlice el xs \<Rightarrow> KindOf (T el) = String \<and> nodes (Find s selector) = []
            | VStruct fs \<Rightarrow> Nodes (searchScope Find s selector) = None
            | VPtr el p \<Rightarrow> Nodes (searchScope Find s selector) = None
            | VOther nm x \<Rightarrow> False))"

definition absentResult :: "StructField \<times> Value \<Rightarrow> StructField \<times> Value" where
  "absentResult fv = (case fv of (f, v) \<Rightarrow> (f, if CanSet f then absentValue v else v))"







section \<open>Example inputs\<close>

text \<open>
  A finder for the selectors that are an element name: the elements with that name
  below the nodes of the selection, in document order, and nil \<^verbatim>\<open>Nodes\<close> when there are
  none, as goquery's \<^verbatim>\<open>Find\<close> returns them. The theorems hold for every finder; this one
  runs the examples.
\<close>

fun matchAll :: "string \<Rightarrow> Node \<Rightarrow> Node list" where
  "matchAll sel (Node ty d as cs) =
     (if ty = ElementNode \<and> d = sel then [Node ty d as cs] else []) @ concat (map (matchAll sel) cs)"

definition findTag :: "Selection \<Rightarrow> string \<Rightarrow> Selection" where
  "findTag s sel =
     (let r = concat (map (\<lambda>n. concat (map (matchAll sel) (Children n))) (nodes s))
      in Selection (if r = [] then None else Some r))"

text \<open>
  The tree of
  \<^verbatim>\<open><div><h1> Hello </h1><a href="x">one</a><a href="y">two</a><a href=" z ">three</a></div>\<close>
  and the selection of its document node.
\<close>

definition exampleDoc :: Selection where
  "exampleDoc = Selection (Some [Node DocumentNode [] []
     [Node ElementNode ''div'' []
        [Node ElementNode ''h1'' [] [Node TextNode '' Hello '' [] []],
         Node ElementNode ''a'' [(''href'', ''x'')] [Node TextNode ''one'' [] []],
         Node ElementNode ''a'' [(''href'', ''y'')] [Node TextNode ''two'' [] []],
         Node ElementNode ''a'' [(''href'', '' z '')] [Node TextNode ''three'' [] []]]]])"

text \<open>
  The types of the examples: \<^verbatim>\<open>string\<close>,
  \<^verbatim>\<open>type Heading struct { V string `selector:"h1"` }\<close>,
  \<^verbatim>\<open>type Inner struct { V string `selector:"h1"`; N int }\<close>, and every other name as a
  type of another kind (\<^verbatim>\<open>int\<close>, \<^verbatim>\<open>bool\<close>, ...).
\<close>

definition vField :: StructField where
  "vField = StructField ''V'' [] [(''selector'', ''h1'')]"

definition nField :: StructField where
  "nField = StructField ''N'' [] []"

definition exampleTypes :: "tname \<Rightarrow> Type" where
  "exampleTypes nm =
     (if nm = ''string'' then TString ''string''
      else if nm = ''Heading'' then TStruct [(vField, TString ''string'')]
      else if nm = ''Inner'' then TStruct [(vField, TString ''string''), (nField, TOther ''int'')]
      else TOther nm)"


text \<open>Fields of the example records, with their tags.\<close>

definition titleField :: StructField where
  "titleField = StructField ''Title'' [] [(''selector'', ''h1'')]"

definition linksField :: StructField where
  "linksField = StructField ''Links'' [] [(''selector'', ''a''), (''attr'', ''href'')]"

definition countField :: StructField where
  "countField = StructField ''Count'' [] []"

definition numsField :: StructField where
  "numsField = StructField ''Nums'' [] [(''selector'', ''a'')]"

definition innerField :: StructField where
  "innerField = StructField ''Inner'' [] [(''selector'', ''div'')]"

definition subField :: StructField where
  "subField = StructField ''Sub'' [] [(''selector'', ''h2'')]"

definition hiddenField :: StructField where
  "hiddenField = StructField ''hidden'' ''main'' [(''selector'', ''h1'')]"

definition tagsField :: StructField where
  "tagsField = StructField ''Tags'' [] [(''selector'', ''h2'')]"

definition secField :: StructField where
  "secField = StructField ''Sec'' [] [(''selector'', ''h2'')]"

definition refField :: StructField where
  "refField = StructField ''Ref'' [] [(''selector'', ''h2'')]"



definition wholeField :: StructField where
  "wholeField = StructField ''Whole'' [] []"

text \<open>
  A recursive type, as the \<^verbatim>\<open>Nested\<close> of the doc comment is:
  \<^verbatim>\<open>type Section struct { Title string `selector:"h1"`; Sub *Section `selector:"div"` }\<close>.
\<close>

definition subSectionField :: StructField where
  "subSectionField = StructField ''Sub'' [] [(''selector'', ''div'')]"

definition sectionTypes :: "tname \<Rightarrow> Type" where
  "sectionTypes nm =
     (if nm = ''string'' then TString ''string''
      else if nm = ''Section'' then
        TStruct [(titleField, TString ''string''),
                 (subSectionField, TPtr ''Section'')]
      else TOther nm)"

text \<open>
  A recursive type whose pointer field has no selector:
  \<^verbatim>\<open>type Loop struct { Next *Loop }\<close>.
\<close>

definition loopTypes :: "tname \<Rightarrow> Type" where
  "loopTypes nm = (if nm = ''Loop'' then TStruct [(StructField ''Next'' [] [], TPtr ''Loop'')] else TOther nm)"

section \<open>Facts about the library model\<close>

lemma nodes_nil [simp]: "nodes (Selection None) = []"
  by (simp add: nodes_def)

lemma nodes_Some [simp]: "nodes (Selection (Some ns)) = ns"
  by (simp add: nodes_def)

lemma Zero_struct: "KindOf t = Struct \<Longrightarrow> \<exists>fs. Zero t = VStruct fs"
  by (cases t) simp_all




lemma leadSpace_char:
  "leadSpace s = k \<Longrightarrow> 0 < k \<Longrightarrow>
     k = 1 \<and> spaceRune (bytes (take 1 s))
   \<or> k = 2 \<and> \<not> spaceRune (bytes (take 1 s)) \<and> spaceRune (bytes (take 2 s))
   \<or> k = 3 \<and> \<not> spaceRune (bytes (take 1 s)) \<and> \<not> spaceRune (bytes (take 2 s)) \<and> spaceRune (bytes (take 3 s))"
  by (auto simp: leadSpace_def split: if_splits)

lemma spaceRune_take_le:
  assumes "spaceRune (bytes (take k s))" "\<forall>j<k. \<not> spaceRune (bytes (take j s))"
  shows "k \<le> length s"
proof (rule ccontr)
  assume "\<not> k \<le> length s"
  then have "length s < k" "take k s = take (length s) s" by simp_all
  then show False using assms by metis
qed

lemma leadSpace_le: "leadSpace s \<le> length s"
proof (cases "leadSpace s = 0")
  case True
  then show ?thesis by simp
next
  case False
  then have pos: "0 < leadSpace s" by simp
  from leadSpace_char [OF refl pos] show ?thesis
  proof (elim disjE conjE)
    assume k: "leadSpace s = 1" and "spaceRune (bytes (take 1 s))"
    then have "1 \<le> length s" by (intro spaceRune_take_le) (auto simp: bytes_def)
    then show ?thesis using k by simp
  next
    assume k: "leadSpace s = 2" and h: "\<not> spaceRune (bytes (take 1 s))" "spaceRune (bytes (take 2 s))"
    have "\<forall>j<2. \<not> spaceRune (bytes (take j s))"
    proof (intro allI impI)
      fix j :: nat assume "j < 2"
      then have "j = 0 \<or> j = 1" by auto
      then show "\<not> spaceRune (bytes (take j s))" using h(1) by (auto simp: bytes_def)
    qed
    then have "2 \<le> length s" using h(2) by (intro spaceRune_take_le)
    then show ?thesis using k by simp
  next
    assume k: "leadSpace s = 3" and h: "\<not> spaceRune (bytes (take 1 s))" "\<not> spaceRune (bytes (take 2 s))"
        "spaceRune (bytes (take 3 s))"
    have "\<forall>j<3. \<not> spaceRune (bytes (take j s))"
    proof (intro allI impI)
      fix j :: nat assume "j < 3"
      then have "j = 0 \<or> j = 1 \<or> j = 2" by auto
      then show "\<not> spaceRune (bytes (take j s))" using h(1,2) by (auto simp: bytes_def)
    qed
    then have "3 \<le> length s" using h(3) by (intro spaceRune_take_le)
    then show ?thesis using k by simp
  qed
qed

lemma leadSpace_append_k:
  assumes "leadSpace s = k" "0 < k"
  shows "leadSpace (take k s @ r) = k"
proof -
  have le: "k \<le> length s" using leadSpace_le [of s] assms by simp
  from leadSpace_char [OF assms] show ?thesis
  proof (elim disjE conjE)
    assume "k = 1" "spaceRune (bytes (take 1 s))"
    then show ?thesis using le by (simp add: leadSpace_def min_def)
  next
    assume "k = 2" "\<not> spaceRune (bytes (take 1 s))" "spaceRune (bytes (take 2 s))"
    then show ?thesis using le by (simp add: leadSpace_def min_def)
  next
    assume "k = 3" "\<not> spaceRune (bytes (take 1 s))" "\<not> spaceRune (bytes (take 2 s))"
      "spaceRune (bytes (take 3 s))"
    then show ?thesis using le by (simp add: leadSpace_def min_def)
  qed
qed

lemma leadSpace_append: "0 < leadSpace s \<Longrightarrow> leadSpace (take (leadSpace s) s @ r) = leadSpace s"
  by (rule leadSpace_append_k [OF refl])

lemma leadSpace_Nil [simp]: "leadSpace [] = 0"
  by (simp add: leadSpace_def bytes_def)

lemma leadSpace_trimLeft: "leadSpace (trimLeft s) = 0"
  by (induction s rule: trimLeft.induct) (metis trimLeft.simps leadSpace_Nil)

lemma trailSpace_trimRight: "trailSpace (trimRight s) = 0"
  by (induction s rule: trimRight.induct) (metis trimRight.simps trailSpace_def spaceRune.simps(4) drop_Nil list.simps(8) bytes_def)

lemma trimLeft_Nil: "trimLeft [] = []" by (subst trimLeft.simps) simp

lemma trimLeft_decomp: "\<exists>a. s = a @ trimLeft s \<and> trimLeft a = []"
proof (induction s rule: trimLeft.induct)
  case (1 s)
  show ?case
  proof (cases "leadSpace s = 0 \<or> s = []")
    case True
    then have "trimLeft s = s" by (subst trimLeft.simps) auto
    then show ?thesis using trimLeft_Nil by (metis append_Nil)
  next
    case False
    then obtain a where a: "drop (leadSpace s) s = a @ trimLeft (drop (leadSpace s) s)" "trimLeft a = []"
      using 1 by blast
    let ?k = "leadSpace s"
    have tl: "trimLeft s = trimLeft (drop ?k s)" using False by (subst trimLeft.simps) simp
    have pos: "0 < ?k" using False by simp
    have l: "leadSpace (take ?k s @ a) = ?k" using leadSpace_append [OF pos] .
    have "drop ?k (take ?k s @ a) = a" using leadSpace_le [of s] by simp
    then have "trimLeft (take ?k s @ a) = trimLeft a"
      using l pos by (subst trimLeft.simps) auto
    moreover have "s = (take ?k s @ a) @ trimLeft s"
      using a(1) tl by (metis append_assoc append_take_drop_id)
    ultimately show ?thesis using a(2) by metis
  qed
qed


lemma trailSpace_Nil [simp]: "trailSpace [] = 0"
  by (simp add: trailSpace_def bytes_def)

lemma trailSpace_char:
  "trailSpace s = k \<Longrightarrow> 0 < k \<Longrightarrow>
     k = 1 \<and> spaceRune (bytes (drop (length s - 1) s))
   \<or> k = 2 \<and> \<not> spaceRune (bytes (drop (length s - 1) s)) \<and> spaceRune (bytes (drop (length s - 2) s))
   \<or> k = 3 \<and> \<not> spaceRune (bytes (drop (length s - 1) s)) \<and> \<not> spaceRune (bytes (drop (length s - 2) s))
       \<and> spaceRune (bytes (drop (length s - 3) s))"
  by (auto simp: trailSpace_def split: if_splits)

lemma spaceRune_drop_le:
  assumes "spaceRune (bytes (drop (length s - k) s))"
    "\<forall>j<k. \<not> spaceRune (bytes (drop (length s - j) s))"
  shows "k \<le> length s"
proof (rule ccontr)
  assume "\<not> k \<le> length s"
  then have "length s < k" "drop (length s - k) s = drop (length s - length s) s" by simp_all
  then show False using assms by metis
qed

lemma trailSpace_le: "trailSpace s \<le> length s"
proof (cases "trailSpace s = 0")
  case True
  then show ?thesis by simp
next
  case False
  then have pos: "0 < trailSpace s" by simp
  from trailSpace_char [OF refl pos] show ?thesis
  proof (elim disjE conjE)
    assume k: "trailSpace s = 1" and "spaceRune (bytes (drop (length s - 1) s))"
    then have "1 \<le> length s" by (intro spaceRune_drop_le) (auto simp: bytes_def)
    then show ?thesis using k by simp
  next
    assume k: "trailSpace s = 2" and h: "\<not> spaceRune (bytes (drop (length s - 1) s))"
      "spaceRune (bytes (drop (length s - 2) s))"
    have "\<forall>j<2. \<not> spaceRune (bytes (drop (length s - j) s))"
    proof (intro allI impI)
      fix j :: nat assume "j < 2"
      then have "j = 0 \<or> j = 1" by auto
      then show "\<not> spaceRune (bytes (drop (length s - j) s))" using h(1) by (auto simp: bytes_def)
    qed
    then have "2 \<le> length s" using h(2) by (intro spaceRune_drop_le)
    then show ?thesis using k by simp
  next
    assume k: "trailSpace s = 3" and h: "\<not> spaceRune (bytes (drop (length s - 1) s))"
      "\<not> spaceRune (bytes (drop (length s - 2) s))" "spaceRune (bytes (drop (length s - 3) s))"
    have "\<forall>j<3. \<not> spaceRune (bytes (drop (length s - j) s))"
    proof (intro allI impI)
      fix j :: nat assume "j < 3"
      then have "j = 0 \<or> j = 1 \<or> j = 2" by auto
      then show "\<not> spaceRune (bytes (drop (length s - j) s))" using h(1,2) by (auto simp: bytes_def)
    qed
    then have "3 \<le> length s" using h(3) by (intro spaceRune_drop_le)
    then show ?thesis using k by simp
  qed
qed

lemma drop_suffix_append:
  "k \<le> length s \<Longrightarrow> j \<le> k \<Longrightarrow>
   drop (length (r @ drop (length s - k) s) - j) (r @ drop (length s - k) s) = drop (length s - j) s"
  by simp

lemma trailSpace_append_k:
  assumes "trailSpace s = k" "0 < k"
  shows "trailSpace (r @ drop (length s - k) s) = k"
proof -
  have le: "k \<le> length s" using trailSpace_le [of s] assms by simp
  from trailSpace_char [OF assms] show ?thesis
  proof (elim disjE conjE)
    assume "k = 1" "spaceRune (bytes (drop (length s - 1) s))"
    then show ?thesis using drop_suffix_append [OF le, of 1 r]
      unfolding trailSpace_def by simp
  next
    assume "k = 2" "\<not> spaceRune (bytes (drop (length s - 1) s))" "spaceRune (bytes (drop (length s - 2) s))"
    then show ?thesis using drop_suffix_append [OF le, of 1 r] drop_suffix_append [OF le, of 2 r]
      unfolding trailSpace_def by simp
  next
    assume "k = 3" "\<not> spaceRune (bytes (drop (length s - 1) s))" "\<not> spaceRune (bytes (drop (length s - 2) s))"
      "spaceRune (bytes (drop (length s - 3) s))"
    then show ?thesis using drop_suffix_append [OF le, of 1 r] drop_suffix_append [OF le, of 2 r]
        drop_suffix_append [OF le, of 3 r]
      unfolding trailSpace_def by simp
  qed
qed

lemma trimRight_Nil: "trimRight [] = []" by (subst trimRight.simps) simp

lemma trimRight_decomp: "\<exists>b. s = trimRight s @ b \<and> trimRight b = []"
proof (induction s rule: trimRight.induct)
  case (1 s)
  show ?case
  proof (cases "trailSpace s = 0 \<or> s = []")
    case True
    then have "trimRight s = s" by (subst trimRight.simps) auto
    then show ?thesis using trimRight_Nil by (metis append_Nil2)
  next
    case False
    let ?k = "trailSpace s"
    let ?p = "take (length s - ?k) s"
    from False obtain b where b: "?p = trimRight ?p @ b" "trimRight b = []"
      using 1 by blast
    have tl: "trimRight s = trimRight ?p" using False by (subst trimRight.simps) simp
    have pos: "0 < ?k" using False by simp
    have l: "trailSpace (b @ drop (length s - ?k) s) = ?k" using trailSpace_append_k [OF refl pos] .
    have le: "?k \<le> length s" by (rule trailSpace_le)
    have "take (length (b @ drop (length s - ?k) s) - ?k) (b @ drop (length s - ?k) s) = b"
      using le by simp
    then have "trimRight (b @ drop (length s - ?k) s) = trimRight b"
      using l pos by (subst trimRight.simps) (auto simp: trimRight_Nil)
    moreover have "s = trimRight s @ (b @ drop (length s - ?k) s)"
      using b(1) tl by (metis append_assoc append_take_drop_id)
    ultimately show ?thesis using b(2) by metis
  qed
qed

lemma leadSpace_take_0: "leadSpace s = 0 \<Longrightarrow> leadSpace (take n s) = 0"
proof -
  assume z: "leadSpace s = 0"
  then have h: "\<not> spaceRune (bytes (take 1 s))" "\<not> spaceRune (bytes (take 2 s))"
    "\<not> spaceRune (bytes (take 3 s))"
    by (auto simp: leadSpace_def split: if_splits)
  have "\<And>j. j \<le> 3 \<Longrightarrow> \<not> spaceRune (bytes (take j s))"
  proof -
    fix j :: nat assume "j \<le> 3"
    then have "j = 0 \<or> j = 1 \<or> j = 2 \<or> j = 3" by auto
    then show "\<not> spaceRune (bytes (take j s))" using h by (auto simp: bytes_def)
  qed
  then have "\<And>j. j \<le> 3 \<Longrightarrow> \<not> spaceRune (bytes (take j (take n s)))"
    by (simp add: min_def)
  then show ?thesis by (simp add: leadSpace_def)
qed

lemma TrimSpace_trimmed: "leadSpace (TrimSpace s) = 0 \<and> trailSpace (TrimSpace s) = 0"
proof -
  obtain b where "trimLeft s = trimRight (trimLeft s) @ b"
    using trimRight_decomp by blast
  then have "trimRight (trimLeft s) = take (length (trimRight (trimLeft s))) (trimLeft s)"
    by (metis append_eq_conv_conj)
  then have "leadSpace (trimRight (trimLeft s)) = 0"
    using leadSpace_take_0 [OF leadSpace_trimLeft] by metis
  then show ?thesis by (simp add: TrimSpace_def trailSpace_trimRight)
qed

lemma TrimSpace_decomp: "\<exists>a b. s = a @ TrimSpace s @ b \<and> trimLeft a = [] \<and> trimRight b = []"
proof -
  obtain a where a: "s = a @ trimLeft s" "trimLeft a = []" using trimLeft_decomp by blast
  obtain b where b: "trimLeft s = trimRight (trimLeft s) @ b" "trimRight b = []"
    using trimRight_decomp by blast
  have "s = a @ TrimSpace s @ b" using a(1) b(1) by (simp add: TrimSpace_def)
  then show ?thesis using a(2) b(2) by blast
qed

lemma TrimSpace_Nil: "TrimSpace [] = []"
  by (simp add: TrimSpace_def trimLeft_Nil trimRight_Nil)

section \<open>Single-value extraction: the theorems\<close>

text \<open>
  C3. \<^verbatim>\<open>getDOMValue\<close> is a total function to strings: it raises nothing. On a scope
  without nodes it is the empty string. Otherwise, with an empty attribute name it is
  the text of the first node with the white space at both ends trimmed: the result
  starts and ends with no white-space rune, and the text is the result between two
  runs of white space. With an attribute name it is the value of that attribute of the
  first node, and the empty string when the node has no such attribute.
\<close>

theorem getDOMValue_extracts:
  "getDOMValue s attr =
     (case nodes s of
        [] \<Rightarrow> []
      | n # ns \<Rightarrow>
          if attr = [] then TrimSpace (nodeText n)
          else (case map_of (NodeAttr n) attr of None \<Rightarrow> [] | Some v \<Rightarrow> v))
   \<and> leadSpace (TrimSpace t) = 0 \<and> trailSpace (TrimSpace t) = 0
   \<and> (\<exists>a b. t = a @ TrimSpace t @ b \<and> trimLeft a = [] \<and> trimRight b = [])"
proof -
  have "getDOMValue s attr =
     (case nodes s of
        [] \<Rightarrow> []
      | n # ns \<Rightarrow>
          if attr = [] then TrimSpace (nodeText n)
          else (case map_of (NodeAttr n) attr of None \<Rightarrow> [] | Some v \<Rightarrow> v))"
    by (simp add: getDOMValue_def First_def Text_def Attr_def getAttributeValue_def TrimSpace_Nil
        nodes_def split: list.splits option.splits)
  then show ?thesis using TrimSpace_trimmed [of t] TrimSpace_decomp [of t] by blast
qed

theorem getDOMValue_extracts_witness:
  "getDOMValue (findTag exampleDoc ''h1'') [] = ''Hello''
   \<and> getDOMValue (findTag exampleDoc ''h2'') [] = []
   \<and> getDOMValue (findTag exampleDoc ''a'') ''href'' = ''x''
   \<and> getDOMValue (findTag exampleDoc ''a'') ''class'' = []
   \<and> getDOMValue (findTag exampleDoc ''h2'') ''href'' = []"
proof -
  have n1: "nodes (findTag exampleDoc ''h1'') = [Node ElementNode ''h1'' [] [Node TextNode '' Hello '' [] []]]"
    by (simp add: findTag_def exampleDoc_def nodes_def)
  have n2: "nodes (findTag exampleDoc ''h2'') = []"
    by (simp add: findTag_def exampleDoc_def nodes_def)
  have n3: "nodes (findTag exampleDoc ''a'') =
     [Node ElementNode ''a'' [(''href'', ''x'')] [Node TextNode ''one'' [] []],
      Node ElementNode ''a'' [(''href'', ''y'')] [Node TextNode ''two'' [] []],
      Node ElementNode ''a'' [(''href'', '' z '')] [Node TextNode ''three'' [] []]]"
    by (simp add: findTag_def exampleDoc_def nodes_def)
  have t: "TrimSpace '' Hello '' = ''Hello''" by code_simp
  show ?thesis
    using getDOMValue_extracts [of "findTag exampleDoc ''h1''" "[]" "[]"]
      getDOMValue_extracts [of "findTag exampleDoc ''h2''" "[]" "[]"]
      getDOMValue_extracts [of "findTag exampleDoc ''a''" "''href''" "[]"]
      getDOMValue_extracts [of "findTag exampleDoc ''a''" "''class''" "[]"]
      getDOMValue_extracts [of "findTag exampleDoc ''h2''" "''href''" "[]"]
    by (simp add: n1 n2 n3 t)
qed

text \<open>
  C10. With an attribute name that is not empty, the value of the attribute of the
  first node is returned as it stands: \<^verbatim>\<open>TrimSpace\<close> is applied in the other branch only.
\<close>

theorem getDOMValue_attr_verbatim:
  "attr \<noteq> [] \<Longrightarrow> map_of (NodeAttr n) attr = Some v \<Longrightarrow>
   getDOMValue (Selection (Some (n # ns))) attr = v"
  by (simp add: getDOMValue_def Attr_def getAttributeValue_def nodes_def)

theorem getDOMValue_attr_verbatim_witness:
  "getDOMValue (Selection (Some [Node ElementNode ''a'' [(''href'', '' z '')] []])) ''href'' = '' z ''
   \<and> TrimSpace '' z '' = ''z''"
proof -
  have t: "TrimSpace '' z '' = ''z''" by code_simp
  show ?thesis
    using getDOMValue_attr_verbatim [of "''href''" "Node ElementNode ''a'' [(''href'', '' z '')] []" "'' z ''" "[]"] t
    by simp
qed

section \<open>The loop over the fields\<close>

lemma fold_appendValue:
  "T el = TString ''string'' \<Longrightarrow>
   fold (\<lambda>n. appendValue T a (Selection (Some [n]))) ns (Returns e (VSlice el (Some xs))) =
   Returns e (VSlice el (Some (xs @ map (\<lambda>n. VString ''string'' (getDOMValue (Selection (Some [n])) a)) ns)))"
  by (induction ns arbitrary: xs) (simp_all add: appendValue_def)

lemma unmarshalSlice_strings:
  "T el = TString ''string'' \<Longrightarrow>
   unmarshalSlice T Find s selector a (VSlice el xs) =
   Returns None (VSlice el (Some ((case xs of None \<Rightarrow> [] | Some ys \<Rightarrow> ys)
      @ map (\<lambda>n. VString ''string'' (getDOMValue (Selection (Some [n])) a)) (nodes (Find s selector)))))"
  by (cases xs) (simp_all add: unmarshalSlice_def Each_def fold_appendValue)

lemma unmarshalSlice_no_nodes:
  "KindOf (T el) = String \<Longrightarrow> nodes (Find s selector) = [] \<Longrightarrow>
   unmarshalSlice T Find s selector a (VSlice el xs) =
   Returns None (VSlice el (Some (case xs of None \<Rightarrow> [] | Some ys \<Rightarrow> ys)))"
  by (cases xs) (simp_all add: unmarshalSlice_def Each_def)

lemma unmarshalSlice_invalid:
  "KindOf (T el) \<noteq> String \<Longrightarrow>
   unmarshalSlice T Find s selector a (VSlice el xs) =
   Returns (Some ''Invalid slice type'') (VSlice el (Some (case xs of None \<Rightarrow> [] | Some ys \<Rightarrow> ys)))"
  by (cases xs; cases "KindOf (T el)") (simp_all add: unmarshalSlice_def)

lemma unmarshalFields_append:
  "unmarshalFields T Find d s pre = Some (Returns None pre') \<Longrightarrow>
   unmarshalFields T Find d s (pre @ rest) =
     (case unmarshalFields T Find d s rest of
        None \<Rightarrow> None
      | Some Panics \<Rightarrow> Some Panics
      | Some (Returns e r') \<Rightarrow> Some (Returns e (pre' @ r')))"
proof (induction pre arbitrary: pre')
  case Nil
  then show ?case by (simp split: option.splits outcome.splits)
next
  case (Cons fv pre)
  obtain f v where fv: "fv = (f, v)" by (cases fv)
  show ?case
  proof (cases "CanSet f")
    case False
    with Cons.prems fv obtain p' where p: "unmarshalFields T Find d s pre = Some (Returns None p')"
      and pre': "pre' = (f, v) # p'"
      by (auto split: option.splits outcome.splits)
    show ?thesis using Cons.IH [OF p] False fv pre'
      by (simp split: option.splits outcome.splits)
  next
    case True
    with Cons.prems fv obtain v' p' where a: "unmarshalAttr T Find d s v f = Some (Returns None v')"
      and p: "unmarshalFields T Find d s pre = Some (Returns None p')"
      and pre': "pre' = (f, v') # p'"
      by (auto split: option.splits outcome.splits)
    show ?thesis using Cons.IH [OF p] True fv pre' a
      by (simp split: option.splits outcome.splits)
  qed
qed

lemma unmarshalFields_stop:
  assumes "unmarshalFields T Find d s pre = Some (Returns None pre')"
    and "CanSet f"
    and "unmarshalAttr T Find d s v f = Some (Returns (Some e) v')"
  shows "unmarshalFields T Find d s (pre @ (f, v) # post) = Some (Returns (Some e) (pre' @ (f, v') # post))"
  using unmarshalFields_append [OF assms(1), of "(f, v) # post"] assms(2,3) by simp

lemma unmarshalFields_continue:
  assumes "unmarshalFields T Find d s pre = Some (Returns None pre')"
    and "CanSet f"
    and "unmarshalAttr T Find d s v f = Some (Returns None v')"
    and "unmarshalFields T Find d s post = Some (Returns e post')"
  shows "unmarshalFields T Find d s (pre @ (f, v) # post) = Some (Returns e (pre' @ (f, v') # post'))"
  using unmarshalFields_append [OF assms(1), of "(f, v) # post"] assms(2,3,4) by simp

lemma titleDecoded:
  "unmarshalFields exampleTypes findTag (UnmarshalHTML exampleTypes findTag 0) exampleDoc
     [(titleField, VString ''string'' [])] = Some (Returns None [(titleField, VString ''string'' ''Hello'')])"
  by code_simp

lemma nodes_a: "nodes (findTag exampleDoc ''a'') =
     [Node ElementNode ''a'' [(''href'', ''x'')] [Node TextNode ''one'' [] []],
      Node ElementNode ''a'' [(''href'', ''y'')] [Node TextNode ''two'' [] []],
      Node ElementNode ''a'' [(''href'', '' z '')] [Node TextNode ''three'' [] []]]"
  by (simp add: findTag_def exampleDoc_def nodes_def)

text \<open>The four ways a nested field whose scope has nodes can go, and the two ways it
  can go when the scope has none.\<close>

lemma unmarshalAttr_struct_error:
  assumes "Nodes (searchScope Find s (Get (Tag f) ''selector'')) \<noteq> None"
    and "d (Pointer (Some (Zero (TypeOf (VStruct cur))))) (searchScope Find s (Get (Tag f) ''selector'')) =
         Some (Returns (Some e) w)"
  shows "unmarshalAttr T Find d s (VStruct cur) f = Some (Returns (Some e) (VStruct cur))"
  using assms by (auto simp: unmarshalAttr_def unmarshalStruct_def searchScope_def New_def Let_def)

lemma unmarshalAttr_struct_ok:
  assumes "Nodes (searchScope Find s (Get (Tag f) ''selector'')) \<noteq> None"
    and "d (Pointer (Some (Zero (TypeOf (VStruct cur))))) (searchScope Find s (Get (Tag f) ''selector'')) =
         Some (Returns None (Pointer (Some x)))"
  shows "unmarshalAttr T Find d s (VStruct cur) f = Some (Returns None x)"
  using assms by (auto simp: unmarshalAttr_def unmarshalStruct_def searchScope_def New_def Let_def)

lemma unmarshalAttr_ptr_error:
  assumes "Nodes (searchScope Find s (Get (Tag f) ''selector'')) \<noteq> None"
    and "KindOf (T el) = Struct"
    and "d (Pointer (Some (Zero (T el)))) (searchScope Find s (Get (Tag f) ''selector'')) =
         Some (Returns (Some e) w)"
  shows "unmarshalAttr T Find d s (VPtr el p) f = Some (Returns (Some e) (VPtr el p))"
  using assms by (auto simp: unmarshalAttr_def unmarshalPtr_def searchScope_def New_def Let_def)

lemma unmarshalAttr_ptr_ok:
  assumes "Nodes (searchScope Find s (Get (Tag f) ''selector'')) \<noteq> None"
    and "KindOf (T el) = Struct"
    and "d (Pointer (Some (Zero (T el)))) (searchScope Find s (Get (Tag f) ''selector'')) =
         Some (Returns None (Pointer (Some x)))"
  shows "unmarshalAttr T Find d s (VPtr el p) f = Some (Returns None (VPtr el (Some x)))"
  using assms by (auto simp: unmarshalAttr_def unmarshalPtr_def searchScope_def New_def Let_def)

lemma unmarshalAttr_struct_absent:
  "Nodes (searchScope Find s (Get (Tag f) ''selector'')) = None \<Longrightarrow>
   unmarshalAttr T Find d s (VStruct cur) f = Some (Returns None (VStruct cur))"
  by (auto simp: unmarshalAttr_def unmarshalStruct_def searchScope_def Let_def)


lemma unmarshalAttr_struct_none:
  assumes "Nodes (searchScope Find s (Get (Tag f) ''selector'')) \<noteq> None"
    and "d (Pointer (Some (Zero (TypeOf (VStruct cur))))) (searchScope Find s (Get (Tag f) ''selector'')) = None"
  shows "unmarshalAttr T Find d s (VStruct cur) f = None"
  using assms by (auto simp: unmarshalAttr_def unmarshalStruct_def searchScope_def New_def Let_def)

lemma unmarshalAttr_ptr_none:
  assumes "Nodes (searchScope Find s (Get (Tag f) ''selector'')) \<noteq> None"
    and "KindOf (T el) = Struct"
    and "d (Pointer (Some (Zero (T el)))) (searchScope Find s (Get (Tag f) ''selector'')) = None"
  shows "unmarshalAttr T Find d s (VPtr el p) f = None"
  using assms by (auto simp: unmarshalAttr_def unmarshalPtr_def searchScope_def New_def Let_def)

text \<open>
  Why the depth is there: on the recursive type \<^verbatim>\<open>Loop\<close>, whose pointer field has no
  selector, every nested decode runs in the same scope and starts another one. On a scope
  with nodes \<^verbatim>\<open>UnmarshalHTML\<close> returns within no depth.
\<close>

lemma UnmarshalHTML_Loop_never_returns:
  "Nodes s \<noteq> None \<Longrightarrow>
   UnmarshalHTML loopTypes Find n (Pointer (Some (Zero (loopTypes ''Loop'')))) s = None"
proof (induction n)
  case 0
  then show ?case by simp
next
  case (Suc n)
  then show ?case
    by (auto simp: loopTypes_def unmarshalAttr_def unmarshalPtr_def CanSet_def Get_def New_def)
qed

text \<open>On the recursive type \<^verbatim>\<open>Section\<close> the decode of the example document returns: each
  nested decode runs in a narrower scope, and the innermost finds no \<^verbatim>\<open>div\<close>.\<close>

lemma UnmarshalHTML_Section_returns:
  "UnmarshalHTML sectionTypes findTag 3
     (Pointer (Some (VStruct [(titleField, VString ''string'' []),
        (subSectionField, VPtr ''Section'' None)]))) exampleDoc =
   Some (Returns None (Pointer (Some (VStruct [(titleField, VString ''string'' ''Hello''),
        (subSectionField, VPtr ''Section'' (Some (VStruct
           [(titleField, VString ''string'' ''Hello''), (subSectionField, VPtr ''Section'' None)])))]))))"
  by code_simp

section \<open>Sequences\<close>

text \<open>
  C4. A field that is a slice of \<^verbatim>\<open>string\<close> gets one value appended for every node the
  selector finds, in the order of the nodes, each extracted from that node with the
  field's \<^verbatim>\<open>attr\<close>; there is no error. A nil field starts from the empty slice, a field
  that is not nil keeps its elements in front. So on a nil field the length is the
  number of nodes found.
\<close>

theorem unmarshalAttr_slice_appends:
  assumes "T el = TString ''string''"
  shows "unmarshalAttr T Find d s (VSlice el xs) f =
     Some (Returns None (VSlice el (Some
       ((case xs of None \<Rightarrow> [] | Some ys \<Rightarrow> ys)
        @ map (\<lambda>n. VString ''string'' (getDOMValue (Selection (Some [n])) (Get (Tag f) ''attr'')))
            (nodes (Find s (Get (Tag f) ''selector'')))))))"
  using assms by (simp add: unmarshalAttr_def unmarshalSlice_strings)

theorem unmarshalAttr_slice_appends_witness:
  "unmarshalAttr exampleTypes findTag (UnmarshalHTML exampleTypes findTag 0) exampleDoc
     (VSlice ''string'' None) linksField =
     Some (Returns None (VSlice ''string''
       (Some [VString ''string'' ''x'', VString ''string'' ''y'', VString ''string'' '' z ''])))
   \<and> unmarshalAttr exampleTypes findTag (UnmarshalHTML exampleTypes findTag 0) exampleDoc
        (VSlice ''string'' (Some [VString ''string'' ''w''])) linksField =
     Some (Returns None (VSlice ''string''
       (Some [VString ''string'' ''w'', VString ''string'' ''x'', VString ''string'' ''y'',
              VString ''string'' '' z ''])))"
proof -
  have T: "exampleTypes ''string'' = TString ''string''" by (simp add: exampleTypes_def)
  show ?thesis
    using unmarshalAttr_slice_appends [where T = exampleTypes and el = "''string''" and Find = findTag
          and d = "UnmarshalHTML exampleTypes findTag 0" and s = exampleDoc and xs = None and f = linksField, OF T]
      unmarshalAttr_slice_appends [where T = exampleTypes and el = "''string''" and Find = findTag
          and d = "UnmarshalHTML exampleTypes findTag 0" and s = exampleDoc and xs = "Some [VString ''string'' ''w'']" and f = linksField, OF T]
    by (simp add: linksField_def Get_def nodes_a getDOMValue_def Attr_def getAttributeValue_def)
qed

text \<open>
  C9. When the elements of a slice field are not of kind String, the error is returned
  after the nil field has been replaced by an empty slice that is not nil: this is the
  field's value in the record when \<^verbatim>\<open>UnmarshalHTML\<close> returns the error. The fields before
  it hold what they were assigned, the fields after it are as they were.
\<close>

theorem UnmarshalHTML_invalid_slice_initialised:
  assumes "unmarshalFields T Find (UnmarshalHTML T Find n) s pre = Some (Returns None pre')"
    and "CanSet f"
    and "KindOf (T el) \<noteq> String"
  shows "UnmarshalHTML T Find (Suc n) (Pointer (Some (VStruct (pre @ (f, VSlice el None) # post)))) s =
     Some (Returns (Some ''Invalid slice type'')
       (Pointer (Some (VStruct (pre' @ (f, VSlice el (Some [])) # post)))))"
proof -
  have "unmarshalAttr T Find (UnmarshalHTML T Find n) s (VSlice el None) f =
      Some (Returns (Some ''Invalid slice type'') (VSlice el (Some [])))"
    using assms(3) by (simp add: unmarshalAttr_def unmarshalSlice_invalid)
  from unmarshalFields_stop [OF assms(1,2) this] show ?thesis by simp
qed

theorem UnmarshalHTML_invalid_slice_initialised_witness:
  "UnmarshalHTML exampleTypes findTag 1
     (Pointer (Some (VStruct [(titleField, VString ''string'' []), (numsField, VSlice ''int'' None),
        (linksField, VSlice ''string'' None)]))) exampleDoc =
   Some (Returns (Some ''Invalid slice type'')
     (Pointer (Some (VStruct [(titleField, VString ''string'' ''Hello''), (numsField, VSlice ''int'' (Some [])),
        (linksField, VSlice ''string'' None)]))))"
proof -
  have c: "CanSet numsField" by (simp add: CanSet_def numsField_def)
  have k: "KindOf (exampleTypes ''int'') \<noteq> String" by (simp add: exampleTypes_def)
  show ?thesis
    using UnmarshalHTML_invalid_slice_initialised [OF titleDecoded c k, of "[(linksField, VSlice ''string'' None)]"]
    by simp
qed

section \<open>Unsupported fields\<close>

text \<open>
  C5, as stated, fails: the error of an unsupported field is
  \<^verbatim>\<open>"Invalid type: " + attrV.String()\<close>, and \<^verbatim>\<open>Value.String()\<close> of a value that is not a
  string is \<^verbatim>\<open><T Value>\<close> for its type \<^verbatim>\<open>T\<close>. Two records whose \<^verbatim>\<open>int\<close> field is called
  \<^verbatim>\<open>Count\<close> in one and \<^verbatim>\<open>Total\<close> in the other get the same error, which names neither.
\<close>

theorem error_names_type_not_field:
  "UnmarshalHTML exampleTypes findTag 1
     (Pointer (Some (VStruct [(StructField ''Count'' [] [], VOther ''int'' 0)]))) exampleDoc =
   Some (Returns (Some ''Invalid type: <int Value>'')
     (Pointer (Some (VStruct [(StructField ''Count'' [] [], VOther ''int'' 0)]))))
   \<and> UnmarshalHTML exampleTypes findTag 1
     (Pointer (Some (VStruct [(StructField ''Total'' [] [], VOther ''int'' 0)]))) exampleDoc =
   Some (Returns (Some ''Invalid type: <int Value>'')
     (Pointer (Some (VStruct [(StructField ''Total'' [] [], VOther ''int'' 0)]))))"
  by (simp add: unmarshalAttr_def ValueString_def CanSet_def)

text \<open>
  C5, amended. When the fields before it decode without error, a field that can be set
  and whose kind is none of Slice, String, Struct and Ptr makes \<^verbatim>\<open>UnmarshalHTML\<close> return
  the error \<^verbatim>\<open>Invalid type: <T Value>\<close>, which names the type \<^verbatim>\<open>T\<close> of the field. The fields
  before it hold what they were assigned; the field and the fields after it are as they
  were.
\<close>

theorem UnmarshalHTML_unsupported_field:
  assumes "unmarshalFields T Find (UnmarshalHTML T Find n) s pre = Some (Returns None pre')"
    and "CanSet f"
  shows "UnmarshalHTML T Find (Suc n) (Pointer (Some (VStruct (pre @ (f, VOther nm x) # post)))) s =
     Some (Returns (Some (''Invalid type: <'' @ nm @ '' Value>''))
       (Pointer (Some (VStruct (pre' @ (f, VOther nm x) # post)))))"
proof -
  have "unmarshalAttr T Find (UnmarshalHTML T Find n) s (VOther nm x) f =
      Some (Returns (Some (''Invalid type: <'' @ nm @ '' Value>'')) (VOther nm x))"
    by (simp add: unmarshalAttr_def ValueString_def)
  from unmarshalFields_stop [OF assms this] show ?thesis by simp
qed

theorem UnmarshalHTML_unsupported_field_witness:
  "UnmarshalHTML exampleTypes findTag 1
     (Pointer (Some (VStruct [(titleField, VString ''string'' []), (countField, VOther ''int'' 7),
        (linksField, VSlice ''string'' None)]))) exampleDoc =
   Some (Returns (Some ''Invalid type: <int Value>'')
     (Pointer (Some (VStruct [(titleField, VString ''string'' ''Hello''), (countField, VOther ''int'' 7),
        (linksField, VSlice ''string'' None)]))))"
proof -
  have c: "CanSet countField" by (simp add: CanSet_def countField_def)
  show ?thesis
    using UnmarshalHTML_unsupported_field [OF titleDecoded c, of "''int''" 7 "[(linksField, VSlice ''string'' None)]"]
    by simp
qed

section \<open>Selectors that find nothing\<close>

lemma getDOMValue_no_nodes: "nodes s = [] \<Longrightarrow> getDOMValue s a = []"
  by (simp add: getDOMValue_def First_def Text_def Attr_def TrimSpace_Nil)

lemma unmarshalAttr_absent:
  "CanSet f \<Longrightarrow> absentField T Find s (f, v) \<Longrightarrow>
   unmarshalAttr T Find d s v f = Some (Returns None (absentValue v))"
  by (cases v)
    (auto simp: absentField_def absentValue_def unmarshalAttr_def unmarshalStruct_def unmarshalPtr_def
      searchScope_def unmarshalSlice_no_nodes getDOMValue_no_nodes Let_def split: option.splits)

lemma unmarshalFields_absent:
  "list_all (absentField T Find s) fs \<Longrightarrow>
   unmarshalFields T Find d s fs = Some (Returns None (map absentResult fs))"
proof (induction fs)
  case Nil
  then show ?case by simp
next
  case (Cons fv fs)
  obtain f v where fv: "fv = (f, v)" by (cases fv)
  show ?case
  proof (cases "CanSet f")
    case True
    then have "unmarshalAttr T Find d s v f = Some (Returns None (absentValue v))"
      using Cons.prems fv by (simp add: unmarshalAttr_absent)
    then show ?thesis using Cons fv True by (simp add: absentResult_def)
  next
    case False
    then show ?thesis using Cons fv by (simp add: absentResult_def)
  qed
qed

text \<open>
  C2, as stated, fails for sequences: a nil slice field whose selector finds no node is
  not left at its zero value. \<^verbatim>\<open>unmarshalSlice\<close> first stores an empty slice that is not
  nil (lines 119 to 122), and that is what the field holds when the decode returns.
\<close>

theorem nil_sequence_initialised_on_no_match:
  "nodes (findTag exampleDoc ''h2'') = []
   \<and> UnmarshalHTML exampleTypes findTag 1
       (Pointer (Some (VStruct [(tagsField, Zero (TSlice ''string''))]))) exampleDoc =
     Some (Returns None (Pointer (Some (VStruct [(tagsField, VSlice ''string'' (Some []))]))))
   \<and> VSlice ''string'' (Some []) \<noteq> Zero (TSlice ''string'')"
  by code_simp

text \<open>
  C2, amended. A field that can be set and finds nothing is decoded without error,
  whatever the record around it, and is then: a string field the empty string, a nil
  slice an empty slice that is not nil, and a slice that is not nil, a nested record and
  a pointer what they were. When every field of the record finds nothing,
  \<^verbatim>\<open>UnmarshalHTML\<close> returns no error, for every depth, with these fields; the fields that
  cannot be set are as they were.
\<close>

theorem UnmarshalHTML_no_match_no_error:
  "(CanSet f \<longrightarrow> absentField T Find s (f, v) \<longrightarrow>
      unmarshalAttr T Find d s v f = Some (Returns None (absentValue v)))
   \<and> (list_all (absentField T Find s) fs \<longrightarrow>
      UnmarshalHTML T Find (Suc n) (Pointer (Some (VStruct fs))) s =
        Some (Returns None (Pointer (Some (VStruct (map absentResult fs))))))"
  using unmarshalAttr_absent [of f T Find s v d] unmarshalFields_absent [of T Find s fs "UnmarshalHTML T Find n"]
  by simp

theorem UnmarshalHTML_no_match_no_error_witness:
  "unmarshalAttr exampleTypes findTag (UnmarshalHTML exampleTypes findTag 0) exampleDoc
     (VSlice ''string'' None) tagsField = Some (Returns None (VSlice ''string'' (Some [])))
   \<and> UnmarshalHTML exampleTypes findTag 1
     (Pointer (Some (VStruct
        [(subField, VString ''string'' ''kept''), (tagsField, VSlice ''string'' None),
         (secField, VStruct [(vField, VString ''string'' ''v'')]), (refField, VPtr ''Inner'' None),
         (hiddenField, VString ''string'' ''h'')]))) exampleDoc =
   Some (Returns None (Pointer (Some (VStruct
        [(subField, VString ''string'' []), (tagsField, VSlice ''string'' (Some [])),
         (secField, VStruct [(vField, VString ''string'' ''v'')]), (refField, VPtr ''Inner'' None),
         (hiddenField, VString ''string'' ''h'')]))))"
proof -
  have h: "list_all (absentField exampleTypes findTag exampleDoc)
        [(subField, VString ''string'' ''kept''), (tagsField, VSlice ''string'' None),
         (secField, VStruct [(vField, VString ''string'' ''v'')]), (refField, VPtr ''Inner'' None),
         (hiddenField, VString ''string'' ''h'')]"
    by code_simp
  have c: "CanSet tagsField" by code_simp
  have a: "absentField exampleTypes findTag exampleDoc (tagsField, VSlice ''string'' None)" by code_simp
  show ?thesis
    using UnmarshalHTML_no_match_no_error [where T = exampleTypes and Find = findTag and s = exampleDoc
        and n = 0 and f = tagsField and v = "VSlice ''string'' None"
        and d = "UnmarshalHTML exampleTypes findTag 0"
        and fs = "[(subField, VString ''string'' ''kept''), (tagsField, VSlice ''string'' None),
         (secField, VStruct [(vField, VString ''string'' ''v'')]), (refField, VPtr ''Inner'' None),
         (hiddenField, VString ''string'' ''h'')]"] h c a
    by (simp add: absentResult_def absentValue_def CanSet_def subField_def tagsField_def secField_def
        refField_def hiddenField_def)
qed

section \<open>The frame of a decode\<close>













section \<open>Errors and the document\<close>
















section \<open>Nested records\<close>

text \<open>
  C8. Take a nested-record field that can be set, whose search scope has nodes, after
  fields that decoded without error. An empty selector makes the search scope the
  current scope. The nested decode runs on a new zero instance of the field's struct
  type (for a pointer, of the type pointed to). When it returns an error,
  \<^verbatim>\<open>UnmarshalHTML\<close> returns this very error, and the field and the fields after it are as
  they were. When it returns no error and has left the instance as \<open>x\<close>, a field by
  value holds \<open>x\<close> itself and a field by reference holds a pointer to \<open>x\<close>, and the decode
  goes on with the fields after it.
\<close>

theorem nested_record_decode:
  assumes pre: "unmarshalFields T Find (UnmarshalHTML T Find n) s pre = Some (Returns None pre')"
    and f: "CanSet f"
    and sc: "Nodes (searchScope Find s (Get (Tag f) ''selector'')) \<noteq> None"
  shows "searchScope Find s [] = s
    \<and> (UnmarshalHTML T Find n (Pointer (Some (Zero (TypeOf (VStruct cur)))))
          (searchScope Find s (Get (Tag f) ''selector'')) = Some (Returns (Some e) w) \<longrightarrow>
        UnmarshalHTML T Find (Suc n) (Pointer (Some (VStruct (pre @ (f, VStruct cur) # post)))) s =
          Some (Returns (Some e) (Pointer (Some (VStruct (pre' @ (f, VStruct cur) # post))))))
    \<and> (UnmarshalHTML T Find n (Pointer (Some (Zero (TypeOf (VStruct cur)))))
          (searchScope Find s (Get (Tag f) ''selector'')) = Some (Returns None (Pointer (Some x))) \<longrightarrow>
        unmarshalFields T Find (UnmarshalHTML T Find n) s post = Some (Returns e' post') \<longrightarrow>
        UnmarshalHTML T Find (Suc n) (Pointer (Some (VStruct (pre @ (f, VStruct cur) # post)))) s =
          Some (Returns e' (Pointer (Some (VStruct (pre' @ (f, x) # post'))))))
    \<and> (KindOf (T el) = Struct \<longrightarrow>
        UnmarshalHTML T Find n (Pointer (Some (Zero (T el))))
          (searchScope Find s (Get (Tag f) ''selector'')) = Some (Returns (Some e) w) \<longrightarrow>
        UnmarshalHTML T Find (Suc n) (Pointer (Some (VStruct (pre @ (f, VPtr el p) # post)))) s =
          Some (Returns (Some e) (Pointer (Some (VStruct (pre' @ (f, VPtr el p) # post))))))
    \<and> (KindOf (T el) = Struct \<longrightarrow>
        UnmarshalHTML T Find n (Pointer (Some (Zero (T el))))
          (searchScope Find s (Get (Tag f) ''selector'')) = Some (Returns None (Pointer (Some x))) \<longrightarrow>
        unmarshalFields T Find (UnmarshalHTML T Find n) s post = Some (Returns e' post') \<longrightarrow>
        UnmarshalHTML T Find (Suc n) (Pointer (Some (VStruct (pre @ (f, VPtr el p) # post)))) s =
          Some (Returns e' (Pointer (Some (VStruct (pre' @ (f, VPtr el (Some x)) # post'))))))"
proof (intro conjI impI)
  show "searchScope Find s [] = s" by (simp add: searchScope_def)
next
  assume "UnmarshalHTML T Find n (Pointer (Some (Zero (TypeOf (VStruct cur)))))
          (searchScope Find s (Get (Tag f) ''selector'')) = Some (Returns (Some e) w)"
  from unmarshalFields_stop [OF pre f unmarshalAttr_struct_error [where d = "UnmarshalHTML T Find n", OF sc this]]
  show "UnmarshalHTML T Find (Suc n) (Pointer (Some (VStruct (pre @ (f, VStruct cur) # post)))) s =
          Some (Returns (Some e) (Pointer (Some (VStruct (pre' @ (f, VStruct cur) # post)))))"
    by simp
next
  assume "UnmarshalHTML T Find n (Pointer (Some (Zero (TypeOf (VStruct cur)))))
          (searchScope Find s (Get (Tag f) ''selector'')) = Some (Returns None (Pointer (Some x)))"
    and "unmarshalFields T Find (UnmarshalHTML T Find n) s post = Some (Returns e' post')"
  from unmarshalFields_continue [OF pre f unmarshalAttr_struct_ok [where d = "UnmarshalHTML T Find n", OF sc this(1)] this(2)]
  show "UnmarshalHTML T Find (Suc n) (Pointer (Some (VStruct (pre @ (f, VStruct cur) # post)))) s =
          Some (Returns e' (Pointer (Some (VStruct (pre' @ (f, x) # post')))))"
    by simp
next
  assume "KindOf (T el) = Struct"
    and "UnmarshalHTML T Find n (Pointer (Some (Zero (T el))))
          (searchScope Find s (Get (Tag f) ''selector'')) = Some (Returns (Some e) w)"
  from unmarshalFields_stop [OF pre f unmarshalAttr_ptr_error [where d = "UnmarshalHTML T Find n" and T = T and el = el, OF sc this]]
  show "UnmarshalHTML T Find (Suc n) (Pointer (Some (VStruct (pre @ (f, VPtr el p) # post)))) s =
          Some (Returns (Some e) (Pointer (Some (VStruct (pre' @ (f, VPtr el p) # post)))))"
    by simp
next
  assume "KindOf (T el) = Struct"
    and "UnmarshalHTML T Find n (Pointer (Some (Zero (T el))))
          (searchScope Find s (Get (Tag f) ''selector'')) = Some (Returns None (Pointer (Some x)))"
    and "unmarshalFields T Find (UnmarshalHTML T Find n) s post = Some (Returns e' post')"
  from unmarshalFields_continue [OF pre f unmarshalAttr_ptr_ok [where d = "UnmarshalHTML T Find n" and T = T and el = el, OF sc this(1,2)] this(3)]
  show "UnmarshalHTML T Find (Suc n) (Pointer (Some (VStruct (pre @ (f, VPtr el p) # post)))) s =
          Some (Returns e' (Pointer (Some (VStruct (pre' @ (f, VPtr el (Some x)) # post')))))"
    by simp
qed

lemma titleDecoded1:
  "unmarshalFields exampleTypes findTag (UnmarshalHTML exampleTypes findTag 1) exampleDoc
     [(titleField, VString ''string'' [])] = Some (Returns None [(titleField, VString ''string'' ''Hello'')])"
  by code_simp

lemma linksDecoded1:
  "unmarshalFields exampleTypes findTag (UnmarshalHTML exampleTypes findTag 1) exampleDoc
     [(linksField, VSlice ''string'' None)] =
   Some (Returns None [(linksField, VSlice ''string''
     (Some [VString ''string'' ''x'', VString ''string'' ''y'', VString ''string'' '' z '']))])"
  by code_simp

theorem nested_record_decode_witness:
  "searchScope findTag exampleDoc [] = exampleDoc
   \<and> UnmarshalHTML exampleTypes findTag 2
       (Pointer (Some (VStruct [(wholeField, VStruct [(vField, VString ''string'' ''old'')])]))) exampleDoc =
     Some (Returns None
       (Pointer (Some (VStruct [(wholeField, VStruct [(vField, VString ''string'' ''Hello'')])]))))
   \<and> UnmarshalHTML exampleTypes findTag 2
       (Pointer (Some (VStruct [(titleField, VString ''string'' []),
          (innerField, VStruct [(vField, VString ''string'' ''old''), (nField, VOther ''int'' 5)]),
          (linksField, VSlice ''string'' None)]))) exampleDoc =
     Some (Returns (Some ''Invalid type: <int Value>'')
       (Pointer (Some (VStruct [(titleField, VString ''string'' ''Hello''),
          (innerField, VStruct [(vField, VString ''string'' ''old''), (nField, VOther ''int'' 5)]),
          (linksField, VSlice ''string'' None)]))))
   \<and> UnmarshalHTML exampleTypes findTag 2
       (Pointer (Some (VStruct [(titleField, VString ''string'' []),
          (innerField, VStruct [(vField, VString ''string'' ''old'')]),
          (linksField, VSlice ''string'' None)]))) exampleDoc =
     Some (Returns None
       (Pointer (Some (VStruct [(titleField, VString ''string'' ''Hello''),
          (innerField, VStruct [(vField, VString ''string'' ''Hello'')]),
          (linksField, VSlice ''string''
             (Some [VString ''string'' ''x'', VString ''string'' ''y'', VString ''string'' '' z '']))]))))
   \<and> UnmarshalHTML exampleTypes findTag 2
       (Pointer (Some (VStruct [(titleField, VString ''string'' []),
          (innerField, VPtr ''Inner'' None),
          (linksField, VSlice ''string'' None)]))) exampleDoc =
     Some (Returns (Some ''Invalid type: <int Value>'')
       (Pointer (Some (VStruct [(titleField, VString ''string'' ''Hello''),
          (innerField, VPtr ''Inner'' None),
          (linksField, VSlice ''string'' None)]))))
   \<and> UnmarshalHTML exampleTypes findTag 2
       (Pointer (Some (VStruct [(titleField, VString ''string'' []),
          (innerField, VPtr ''Heading'' None),
          (linksField, VSlice ''string'' None)]))) exampleDoc =
     Some (Returns None
       (Pointer (Some (VStruct [(titleField, VString ''string'' ''Hello''),
          (innerField, VPtr ''Heading'' (Some (VStruct [(vField, VString ''string'' ''Hello'')]))),
          (linksField, VSlice ''string''
             (Some [VString ''string'' ''x'', VString ''string'' ''y'', VString ''string'' '' z '']))]))))"
proof -
  have c: "CanSet innerField" by code_simp
  have sc: "Nodes (searchScope findTag exampleDoc (Get (Tag innerField) ''selector'')) \<noteq> None"
    by code_simp
  have kI: "KindOf (exampleTypes ''Inner'') = Struct" by code_simp
  have kH: "KindOf (exampleTypes ''Heading'') = Struct" by code_simp
  have vI: "UnmarshalHTML exampleTypes findTag 1
      (Pointer (Some (Zero (TypeOf (VStruct [(vField, VString ''string'' ''old''), (nField, VOther ''int'' 5)])))))
      (searchScope findTag exampleDoc (Get (Tag innerField) ''selector'')) =
    Some (Returns (Some ''Invalid type: <int Value>'')
      (Pointer (Some (VStruct [(vField, VString ''string'' ''Hello''), (nField, VOther ''int'' 0)]))))"
    by code_simp
  have vH: "UnmarshalHTML exampleTypes findTag 1
      (Pointer (Some (Zero (TypeOf (VStruct [(vField, VString ''string'' ''old'')])))))
      (searchScope findTag exampleDoc (Get (Tag innerField) ''selector'')) =
    Some (Returns None (Pointer (Some (VStruct [(vField, VString ''string'' ''Hello'')]))))"
    by code_simp
  have pI: "UnmarshalHTML exampleTypes findTag 1 (Pointer (Some (Zero (exampleTypes ''Inner''))))
      (searchScope findTag exampleDoc (Get (Tag innerField) ''selector'')) =
    Some (Returns (Some ''Invalid type: <int Value>'')
      (Pointer (Some (VStruct [(vField, VString ''string'' ''Hello''), (nField, VOther ''int'' 0)]))))"
    by code_simp
  have pH: "UnmarshalHTML exampleTypes findTag 1 (Pointer (Some (Zero (exampleTypes ''Heading''))))
      (searchScope findTag exampleDoc (Get (Tag innerField) ''selector'')) =
    Some (Returns None (Pointer (Some (VStruct [(vField, VString ''string'' ''Hello'')]))))"
    by code_simp
  note a = nested_record_decode [OF titleDecoded1 c sc, where post = "[(linksField, VSlice ''string'' None)]"
      and cur = "[(vField, VString ''string'' ''old''), (nField, VOther ''int'' 5)]" and el = "''Inner''"
      and p = None and e = "''Invalid type: <int Value>''"
      and w = "Pointer (Some (VStruct [(vField, VString ''string'' ''Hello''), (nField, VOther ''int'' 0)]))"]
  note b = nested_record_decode [OF titleDecoded1 c sc, where post = "[(linksField, VSlice ''string'' None)]"
      and cur = "[(vField, VString ''string'' ''old'')]" and el = "''Heading''"
      and p = None and x = "VStruct [(vField, VString ''string'' ''Hello'')]" and e' = None
      and post' = "[(linksField, VSlice ''string''
         (Some [VString ''string'' ''x'', VString ''string'' ''y'', VString ''string'' '' z '']))]"]
  have two: "Suc 1 = 2" by simp
  from a vI pI kI have e1: "UnmarshalHTML exampleTypes findTag (Suc 1)
       (Pointer (Some (VStruct ([(titleField, VString ''string'' [])] @
          (innerField, VStruct [(vField, VString ''string'' ''old''), (nField, VOther ''int'' 5)]) #
          [(linksField, VSlice ''string'' None)])))) exampleDoc =
     Some (Returns (Some ''Invalid type: <int Value>'')
       (Pointer (Some (VStruct ([(titleField, VString ''string'' ''Hello'')] @
          (innerField, VStruct [(vField, VString ''string'' ''old''), (nField, VOther ''int'' 5)]) #
          [(linksField, VSlice ''string'' None)])))))"
    and e2: "UnmarshalHTML exampleTypes findTag (Suc 1)
       (Pointer (Some (VStruct ([(titleField, VString ''string'' [])] @
          (innerField, VPtr ''Inner'' None) # [(linksField, VSlice ''string'' None)])))) exampleDoc =
     Some (Returns (Some ''Invalid type: <int Value>'')
       (Pointer (Some (VStruct ([(titleField, VString ''string'' ''Hello'')] @
          (innerField, VPtr ''Inner'' None) # [(linksField, VSlice ''string'' None)])))))"
    by blast+
  from b vH pH kH linksDecoded1 have o1: "UnmarshalHTML exampleTypes findTag (Suc 1)
       (Pointer (Some (VStruct ([(titleField, VString ''string'' [])] @
          (innerField, VStruct [(vField, VString ''string'' ''old'')]) #
          [(linksField, VSlice ''string'' None)])))) exampleDoc =
     Some (Returns None
       (Pointer (Some (VStruct ([(titleField, VString ''string'' ''Hello'')] @
          (innerField, VStruct [(vField, VString ''string'' ''Hello'')]) #
          [(linksField, VSlice ''string''
             (Some [VString ''string'' ''x'', VString ''string'' ''y'', VString ''string'' '' z '']))])))))"
    and o2: "UnmarshalHTML exampleTypes findTag (Suc 1)
       (Pointer (Some (VStruct ([(titleField, VString ''string'' [])] @
          (innerField, VPtr ''Heading'' None) # [(linksField, VSlice ''string'' None)])))) exampleDoc =
     Some (Returns None
       (Pointer (Some (VStruct ([(titleField, VString ''string'' ''Hello'')] @
          (innerField, VPtr ''Heading'' (Some (VStruct [(vField, VString ''string'' ''Hello'')]))) #
          [(linksField, VSlice ''string''
             (Some [VString ''string'' ''x'', VString ''string'' ''y'', VString ''string'' '' z '']))])))))"
    by blast+
  have s0: "searchScope findTag exampleDoc [] = exampleDoc" using a by blast
  have cw: "CanSet wholeField" by code_simp
  have scw: "Nodes (searchScope findTag exampleDoc (Get (Tag wholeField) ''selector'')) \<noteq> None"
    by code_simp
  have nilDecoded: "unmarshalFields exampleTypes findTag (UnmarshalHTML exampleTypes findTag 1) exampleDoc [] =
      Some (Returns None [])"
    by simp
  have vW: "UnmarshalHTML exampleTypes findTag 1
      (Pointer (Some (Zero (TypeOf (VStruct [(vField, VString ''string'' ''old'')])))))
      (searchScope findTag exampleDoc (Get (Tag wholeField) ''selector'')) =
    Some (Returns None (Pointer (Some (VStruct [(vField, VString ''string'' ''Hello'')]))))"
    by code_simp
  note w = nested_record_decode [OF nilDecoded cw scw, where post = "[]"
      and cur = "[(vField, VString ''string'' ''old'')]"
      and x = "VStruct [(vField, VString ''string'' ''Hello'')]" and e' = None and post' = "[]"]
  from w vW nilDecoded have o3: "UnmarshalHTML exampleTypes findTag (Suc 1)
       (Pointer (Some (VStruct ([] @ (wholeField, VStruct [(vField, VString ''string'' ''old'')]) # []))))
       exampleDoc =
     Some (Returns None
       (Pointer (Some (VStruct ([] @ (wholeField, VStruct [(vField, VString ''string'' ''Hello'')]) # [])))))"
    by blast
  show ?thesis
    using e1 e2 o1 o2 o3 s0 unfolding two append_Cons append_Nil by blast
qed

section \<open>The destination of Decode\<close>

text \<open>No decode of a struct returns the error of an invalid destination: the errors of the
  fields have other messages.\<close>

lemma fold_appendValue_error:
  "fold (\<lambda>n. appendValue T a (Selection (Some [n]))) ns st = Returns e v' \<Longrightarrow> \<exists>v0. st = Returns e v0"
proof (induction ns arbitrary: st)
  case Nil
  then show ?case by simp
next
  case (Cons n ns)
  then obtain v0 where "appendValue T a (Selection (Some [n])) st = Returns e v0" by fastforce
  then show ?case
    by (auto simp: appendValue_def Let_def split: outcome.splits Value.splits option.splits if_splits)
qed

lemma unmarshalSlice_error:
  "unmarshalSlice T Find s selector a v = Returns (Some e) v' \<Longrightarrow> e = ''Invalid slice type''"
  by (auto simp: unmarshalSlice_def Each_def Let_def dest: fold_appendValue_error
      split: Value.splits Kind.splits)

lemma unmarshalAttr_error:
  assumes d: "\<And>fs s' e v'. d (Pointer (Some (VStruct fs))) s' = Some (Returns (Some e) v') \<Longrightarrow>
      e \<noteq> ''Invalid type or nil-pointer''"
    and r: "unmarshalAttr T Find d s v f = Some (Returns (Some e) v')"
  shows "e \<noteq> ''Invalid type or nil-pointer''"
proof (cases v)
  case (VOther nm x)
  then show ?thesis using r by (auto simp: unmarshalAttr_def)
next
  case (VString nm x)
  then show ?thesis using r by (auto simp: unmarshalAttr_def Let_def split: if_splits)
next
  case (VSlice el xs)
  then have "e = ''Invalid slice type''" using r unmarshalSlice_error by (auto simp: unmarshalAttr_def)
  then show ?thesis by simp
next
  case (VPtr el p)
  let ?ns = "searchScope Find s (Get (Tag f) ''selector'')"
  show ?thesis
  proof (cases "Nodes ?ns = None \<or> KindOf (T el) \<noteq> Struct")
    case True
    then show ?thesis using r VPtr
      by (auto simp: unmarshalAttr_def unmarshalPtr_def searchScope_def Let_def split: if_splits)
  next
    case False
    then obtain fs where z: "Zero (T el) = VStruct fs" using Zero_struct by blast
    from False r VPtr obtain w where "d (Pointer (Some (Zero (T el)))) ?ns = Some (Returns (Some e) w)"
      by (auto simp: unmarshalAttr_def unmarshalPtr_def searchScope_def Let_def New_def
          split: if_splits option.splits outcome.splits Interface.splits)
    then show ?thesis using d z by simp
  qed
next
  case (VStruct cur)
  let ?ns = "searchScope Find s (Get (Tag f) ''selector'')"
  show ?thesis
  proof (cases "Nodes ?ns = None")
    case True
    then show ?thesis using r VStruct by (simp add: unmarshalAttr_struct_absent)
  next
    case False
    obtain fs where z: "Zero (TypeOf (VStruct cur)) = VStruct fs" by simp
    from False r VStruct obtain w where
      "d (Pointer (Some (Zero (TypeOf (VStruct cur))))) ?ns = Some (Returns (Some e) w)"
      by (auto simp: unmarshalAttr_def unmarshalStruct_def searchScope_def Let_def New_def
          simp del: Zero.simps TypeOf.simps
          split: if_splits option.splits outcome.splits Interface.splits)
    then show ?thesis using d unfolding z by blast
  qed
qed

lemma unmarshalFields_error:
  assumes d: "\<And>fs s' e v'. d (Pointer (Some (VStruct fs))) s' = Some (Returns (Some e) v') \<Longrightarrow>
      e \<noteq> ''Invalid type or nil-pointer''"
  shows "unmarshalFields T Find d s fs = Some (Returns (Some e) fs') \<Longrightarrow>
    e \<noteq> ''Invalid type or nil-pointer''"
proof (induction fs arbitrary: fs')
  case Nil
  then show ?case by simp
next
  case (Cons fv fs)
  obtain f v where fv: "fv = (f, v)" by (cases fv)
  show ?case
  proof (cases "CanSet f")
    case False
    then show ?thesis using Cons fv by (auto split: option.splits outcome.splits)
  next
    case True
    show ?thesis
    proof (cases "\<exists>v'. unmarshalAttr T Find d s v f = Some (Returns (Some e) v')")
      case True
      then obtain w where w: "unmarshalAttr T Find d s v f = Some (Returns (Some e) w)" by blast
      show ?thesis by (rule unmarshalAttr_error [where d = d, OF _ w]) (erule d)
    next
      case False
      then show ?thesis using Cons fv \<open>CanSet f\<close> by (auto split: option.splits outcome.splits)
    qed
  qed
qed

lemma UnmarshalHTML_error:
  "UnmarshalHTML T Find n (Pointer (Some (VStruct fs))) s = Some (Returns (Some e) v') \<Longrightarrow>
   e \<noteq> ''Invalid type or nil-pointer''"
proof (induction n arbitrary: fs s e v')
  case 0
  then show ?case by simp
next
  case (Suc n)
  from Suc.prems obtain fs' where "unmarshalFields T Find (UnmarshalHTML T Find n) s fs = Some (Returns (Some e) fs')"
    by (auto split: option.splits outcome.splits)
  then show ?case by (rule unmarshalFields_error [where d = "UnmarshalHTML T Find n", rotated]) (erule Suc.IH)
qed

text \<open>
  C1. The spec says that \<^verbatim>\<open>Decode\<close> returns the invalid-target error also for a
  non-nil pointer to a value that is not a record. The code checks only that the
  argument is a pointer and not nil (line 35); on a pointer to an \<^verbatim>\<open>int\<close> it goes on to
  \<^verbatim>\<open>sv.NumField()\<close> (line 42), which panics. The theorem evaluates the code at a pointer to
  an \<^verbatim>\<open>int\<close>, for every scope, finder and depth, and likewise at a pointer to a value of
  any other kind, to a string, to a slice and to a pointer.
\<close>

theorem UnmarshalHTML_pointer_to_int_panics:
  "UnmarshalHTML T Find (Suc n) (Pointer (Some (VOther ''int'' x))) s = Some Panics
   \<and> UnmarshalHTML T Find (Suc n) (Pointer (Some (VOther nm x))) s = Some Panics
   \<and> UnmarshalHTML T Find (Suc n) (Pointer (Some (VString nm y))) s = Some Panics
   \<and> UnmarshalHTML T Find (Suc n) (Pointer (Some (VSlice el xs))) s = Some Panics
   \<and> UnmarshalHTML T Find (Suc n) (Pointer (Some (VPtr el p))) s = Some Panics"
  by simp

text \<open>
  The rest of the sentence holds. \<^verbatim>\<open>UnmarshalHTML\<close> returns the error of an invalid
  destination exactly for the nil interface, a value that is not a pointer and a nil
  pointer, and then writes nothing; on a pointer to a struct it never returns this
  error.
\<close>

lemma UnmarshalHTML_invalid_target_iff:
  "UnmarshalHTML T Find (Suc n) v s = Some (Returns (Some ''Invalid type or nil-pointer'') v') \<longleftrightarrow>
   (v = NilInterface \<or> v = NonPointer \<or> v = Pointer None) \<and> v' = v"
proof (cases v)
  case (Pointer p)
  show ?thesis
  proof (cases p)
    case None
    then show ?thesis using Pointer by auto
  next
    case (Some sv)
    show ?thesis
    proof (cases sv)
      case (VStruct fs)
      then show ?thesis using Pointer Some UnmarshalHTML_error [of T Find "Suc n" fs s _ v'] by auto
    qed (use Pointer Some in auto)
  qed
qed auto

end
